theory Spec2Isabelle
  imports Complex_Main "HOL-Library.Sublist"
begin

section \<open>Python values used by the agent\<close>

text \<open>
  A Python \<open>str\<close> is a sequence of Unicode code points; it is modelled as the list of
  those code points, so that the Cyrillic keywords of the agent are ordinary list
  literals and \<open>len\<close> counts what Python counts.  ASCII literals of the source are
  written through \<open>asc\<close>.
\<close>

type_synonym ustr = "nat list"

definition asc :: "string \<Rightarrow> ustr" where
  "asc s = map of_char s"

text \<open>The code points for which \<open>str.isspace\<close> holds; \<open>str.strip()\<close> removes them.\<close>

definition is_space :: "nat \<Rightarrow> bool" where
  "is_space c \<longleftrightarrow>
     (9 \<le> c \<and> c \<le> 13) \<or> (28 \<le> c \<and> c \<le> 32) \<or> c = 133 \<or> c = 160 \<or> c = 5760 \<or>
     (8192 \<le> c \<and> c \<le> 8202) \<or> c = 8232 \<or> c = 8233 \<or> c = 8239 \<or> c = 8287 \<or> c = 12288"

definition py_strip :: "ustr \<Rightarrow> ustr" where
  "py_strip s = rev (dropWhile is_space (rev (dropWhile is_space s)))"

text \<open>\<open>k in q\<close> for two strings: \<open>k\<close> occurs in \<open>q\<close> as a contiguous block.\<close>

fun py_contains :: "ustr \<Rightarrow> ustr \<Rightarrow> bool" where
  "py_contains k [] = (k = [])"
| "py_contains k (c # cs) = (prefix k (c # cs) \<or> py_contains k cs)"

section \<open>Scenario decision: the rule-based guess\<close>

text \<open>
  \<open>RagAgent._rule_guess_scenario\<close>.  \<open>selected_ids\<close> is \<open>Sequence[int] | None\<close>, the
  query is defended against \<open>None\<close> by \<open>query or ""\<close>.  \<open>str.lower\<close> is the Python
  builtin and is a parameter of the model.
\<close>

definition search_keywords :: "ustr list" where
  "search_keywords =
    [ [1085, 1072, 1081, 1090, 1080],
      [1085, 1072, 1081, 1076, 1080],
      [1080, 1097, 1080],
      [1087, 1086, 1080, 1089, 1082],
      [1075, 1076, 1077],
      [1082, 1072, 1082, 1086, 1081, 32, 1076, 1086, 1075, 1086, 1074, 1086, 1088],
      [1082, 1072, 1082, 1086, 1081, 32, 1076, 1086, 1082, 1091, 1084, 1077, 1085, 1090],
      [1087, 1086, 1082, 1072, 1078, 1080],
      [1087, 1086, 1076, 1073, 1077, 1088, 1080] ]"

definition rule_guess_scenario ::
  "(ustr \<Rightarrow> ustr) \<Rightarrow> ustr option \<Rightarrow> 'h list \<Rightarrow> int list option \<Rightarrow> int" where
  "rule_guess_scenario lower query history selected_ids =
     (if (case selected_ids of None \<Rightarrow> False | Some ids \<Rightarrow> ids \<noteq> [] \<and> length ids > 0) then 3
      else
        let q = lower (case query of None \<Rightarrow> [] | Some s \<Rightarrow> if s = [] then [] else s) in
        if list_ex (\<lambda>k. py_contains k q) search_keywords then 1
        else if py_strip q = [] then 5
        else 2)"

text \<open>
  A lower-casing of the code points the keywords are written in (Basic Latin and the
  Russian alphabet), used to run the model on concrete queries.
\<close>

definition lower_cp :: "nat \<Rightarrow> nat" where
  "lower_cp c =
     (if 65 \<le> c \<and> c \<le> 90 then c + 32
      else if 1040 \<le> c \<and> c \<le> 1071 then c + 32
      else if 1024 \<le> c \<and> c \<le> 1039 then c + 80
      else c)"

definition lower_basic :: "ustr \<Rightarrow> ustr" where
  "lower_basic s = map lower_cp s"

section \<open>Token-aware context manager: the budget split\<close>







section \<open>JSON values, exceptions and builtins\<close>

text \<open>
  What \<open>json.loads\<close> and \<open>response.json()\<close> return: \<open>None\<close>, booleans, integers,
  floats (\<open>json.loads\<close> also accepts \<open>NaN\<close> and \<open>Infinity\<close>), strings, lists and
  dictionaries with string keys.  A dictionary is the association list of its items in
  insertion order, with distinct keys.
\<close>

datatype pyfloat = Fin rat | PosInf | NegInf | NaN

datatype json =
    JNull
  | JBool bool
  | JInt int
  | JFloat pyfloat
  | JStr ustr
  | JArr "json list"
  | JObj "(ustr \<times> json) list"

datatype exn_class =
    KeyError | IndexError | TypeError | ValueError | AttributeError | OverflowError
  | ZeroDivisionError | RuntimeError | HTTPError | OtherException

text \<open>
  Exceptions as values.  \<open>Raised c m\<close> is an exception of class \<open>c\<close> whose \<open>str()\<close> is
  \<open>m\<close>; the two \<open>RuntimeError\<close>s of the executor and the \<open>ValueError\<close> of the
  registry, whose messages are formatted from their data, keep that data.
\<close>

datatype exn =
    Raised exn_class ustr
  | CircularDependency "ustr list"
  | FailedWithoutException ustr
  | UnknownTool ustr

text \<open>
  Python builtins that the agent calls and that are not code of the repository:
  \<open>str.lower\<close>, \<open>str()\<close> of a value that is not a string, \<open>json.loads\<close>
  (\<open>None\<close> stands for \<open>JSONDecodeError\<close>), and \<open>int()\<close>/\<open>float()\<close> of a string
  (\<open>None\<close> stands for \<open>ValueError\<close>), and \<open>repr\<close> of a list of strings.
\<close>

record builtins =
  b_lower :: "ustr \<Rightarrow> ustr"
  b_str :: "json \<Rightarrow> ustr"
  b_loads :: "ustr \<Rightarrow> json option"
  b_int_of_str :: "ustr \<Rightarrow> int option"
  b_float_of_str :: "ustr \<Rightarrow> pyfloat option"
  b_repr :: "ustr list \<Rightarrow> ustr"


text \<open>Truth value of a JSON value, as \<open>if v\<close>, \<open>v or w\<close> and \<open>bool(v)\<close> take it.\<close>

fun py_truthy :: "json \<Rightarrow> bool" where
  "py_truthy JNull = False"
| "py_truthy (JBool b) = b"
| "py_truthy (JInt i) = (i \<noteq> 0)"
| "py_truthy (JFloat f) = (f \<noteq> Fin 0)"
| "py_truthy (JStr s) = (s \<noteq> [])"
| "py_truthy (JArr xs) = (xs \<noteq> [])"
| "py_truthy (JObj kvs) = (kvs \<noteq> [])"



fun py_get :: "json \<Rightarrow> ustr \<Rightarrow> json \<Rightarrow> exn + json" where
  "py_get (JObj kvs) key dflt = Inr (case map_of kvs key of None \<Rightarrow> dflt | Some v \<Rightarrow> v)"
| "py_get v key dflt = Inl (Raised AttributeError [])"

definition bind_exn :: "exn + 'a \<Rightarrow> ('a \<Rightarrow> exn + 'b) \<Rightarrow> exn + 'b" where
  "bind_exn m f = (case m of Inl e \<Rightarrow> Inl e | Inr x \<Rightarrow> f x)"


section \<open>Fusion planner\<close>












section \<open>Reciprocal rank fusion\<close>

text \<open>
  A \<open>VectorSearchResult\<close> with the fields of its chunk.  Scores are Python floats; the
  model computes with rationals, so sums of reciprocal ranks are exact.
\<close>

record search_result =
  chunk_id :: int
  chunk_serial :: int
  chunk_content :: ustr
  score :: rat
  payload :: json

text \<open>
  A Python \<open>dict\<close> keeps its keys in insertion order, and assigning to a key that is
  present keeps its place: an association list with distinct keys.
\<close>

fun dict_set :: "'k \<Rightarrow> 'v \<Rightarrow> ('k \<times> 'v) list \<Rightarrow> ('k \<times> 'v) list" where
  "dict_set k v [] = [(k, v)]"
| "dict_set k v ((k', v') # d) = (if k' = k then (k, v) # d else (k', v') # dict_set k v d)"











section \<open>Parallel tool executor\<close>

record tool_result =
  content :: json
  used_chunks :: "search_result list"

text \<open>
  \<open>ToolExecution\<close>.  The field \<open>duration_ms\<close> holds a clock reading and is not modelled.
\<close>

record tool_execution =
  tool_name :: ustr
  arguments :: json
  depends_on :: "ustr list"
  result :: "tool_result option"
  error :: "exn option"

text \<open>
  The tool handlers call databases and remote services.  A handler is a function of the
  arguments and of the state \<open>'w\<close> of everything outside the agent, returning the
  tool result or the exception it raises, and the new outside state.  A registry maps
  tool names to handlers.

  \<open>ToolRegistry.execute\<close> as the executor calls it: the arguments are the execution's
  arguments serialised by \<open>json.dumps\<close> and parsed again, so \<open>_parse_arguments\<close>
  returns them when they are a dictionary and raises \<open>ValueError\<close> otherwise.
\<close>

type_synonym 'w handler = "json \<Rightarrow> 'w \<Rightarrow> (exn + tool_result) \<times> 'w"
type_synonym 'w registry = "ustr \<Rightarrow> 'w handler option"

definition registry_execute :: "'w registry \<Rightarrow> ustr \<Rightarrow> json \<Rightarrow> 'w \<Rightarrow> (exn + tool_result) \<times> 'w" where
  "registry_execute reg name args w =
     (case reg name of
        None \<Rightarrow> (Inl (UnknownTool name), w)
      | Some handler \<Rightarrow>
          (case args of
             JObj kvs \<Rightarrow> handler (JObj kvs) w
           | _ \<Rightarrow> (Inl (Raised ValueError (asc ''Tool arguments must be an object'')), w)))"

text \<open>
  What the executor does that can be observed from outside: the log line that names the
  tools of a wave, every call of a handler with the zero-based number of the attempt,
  and every \<open>asyncio.sleep(backoff)\<close> with its duration in seconds.
\<close>

datatype event =
    Wave "ustr list"
  | Call ustr json nat
  | Backoff ustr nat

text \<open>
  \<open>_execute_with_retry\<close>: the loop \<open>for attempt in range(max_retries + 1)\<close> over the
  list of attempt numbers, with \<open>last_error\<close>; after the loop the last error is raised,
  or the \<open>RuntimeError\<close> when there was no attempt.
\<close>

fun retry_loop ::
  "'w registry \<Rightarrow> int \<Rightarrow> ustr \<Rightarrow> json \<Rightarrow> nat list \<Rightarrow> exn option \<Rightarrow> 'w
     \<Rightarrow> (exn + tool_result) \<times> 'w \<times> event list" where
  "retry_loop reg max_retries name args [] last_error w =
     (Inl (case last_error of Some e \<Rightarrow> e | None \<Rightarrow> FailedWithoutException name), w, [])"
| "retry_loop reg max_retries name args (attempt # rest) last_error w =
     (case registry_execute reg name args w of
        (Inr r, w') \<Rightarrow> (Inr r, w', [Call name args attempt])
      | (Inl exc, w') \<Rightarrow>
          if int attempt < max_retries
          then (case retry_loop reg max_retries name args rest (Some exc) w' of
                  (out, w'', evs) \<Rightarrow>
                    (out, w'', Call name args attempt # Backoff name (2 ^ attempt) # evs))
          else (case retry_loop reg max_retries name args rest (Some exc) w' of
                  (out, w'', evs) \<Rightarrow> (out, w'', Call name args attempt # evs)))"

definition execute_with_retry ::
  "'w registry \<Rightarrow> int \<Rightarrow> tool_execution \<Rightarrow> 'w \<Rightarrow> (exn + tool_result) \<times> 'w \<times> event list" where
  "execute_with_retry reg max_retries execution w =
     retry_loop reg max_retries (tool_name execution) (arguments execution)
       [0 ..< nat (max_retries + 1)] None w"

text \<open>
  The state of \<open>execute_plan\<close>.  The caller keeps the list of executions and reads their
  \<open>error\<close> fields afterwards, so the executions live in the list \<open>execs\<close> and the
  dictionary \<open>pending\<close> maps a tool name to the position of its execution in that list.
\<close>

record plan_state =
  results :: "(ustr \<times> tool_result) list"
  completed :: "ustr set"
  pending :: "(ustr \<times> nat) list"
  execs :: "tool_execution list"

text \<open>\<open>{ex.tool_name: ex for ex in executions}\<close>: a later execution replaces an earlier one of the same name.\<close>

fun pending_from :: "nat \<Rightarrow> tool_execution list \<Rightarrow> (ustr \<times> nat) list \<Rightarrow> (ustr \<times> nat) list" where
  "pending_from i [] d = d"
| "pending_from i (ex # exs) d = pending_from (Suc i) exs (dict_set (tool_name ex) i d)"

definition initial_pending :: "tool_execution list \<Rightarrow> (ustr \<times> nat) list" where
  "initial_pending executions = pending_from 0 executions []"

definition ready_of :: "plan_state \<Rightarrow> (ustr \<times> nat) list" where
  "ready_of s =
     filter (\<lambda>(name, idx). list_all (\<lambda>dep. dep \<in> completed s) (depends_on (execs s ! idx)))
       (pending s)"

text \<open>
  \<open>asyncio.gather(*tasks.values(), return_exceptions=True)\<close>: the tasks of a wave are
  interleaved by the event loop; the model runs them one after the other in the order
  of \<open>ready\<close>, and an exception of a task is its outcome.
\<close>

fun run_wave ::
  "'w registry \<Rightarrow> int \<Rightarrow> tool_execution list \<Rightarrow> (ustr \<times> nat) list \<Rightarrow> 'w
     \<Rightarrow> (ustr \<times> nat \<times> (exn + tool_result)) list \<times> 'w \<times> event list" where
  "run_wave reg max_retries exs [] w = ([], w, [])"
| "run_wave reg max_retries exs ((name, idx) # ready) w =
     (case execute_with_retry reg max_retries (exs ! idx) w of
        (out, w1, ev1) \<Rightarrow>
          (case run_wave reg max_retries exs ready w1 of
             (outs, w2, ev2) \<Rightarrow> ((name, idx, out) # outs, w2, ev1 @ ev2)))"

text \<open>
  The loop over the finished tasks.  \<open>pending[tool_name]\<close> is the execution the task was
  created from, at position \<open>idx\<close>.
\<close>

definition process_result :: "ustr \<times> nat \<times> (exn + tool_result) \<Rightarrow> plan_state \<Rightarrow> plan_state" where
  "process_result x s =
     (case x of (name, idx, outcome) \<Rightarrow>
        (let s1 = (case outcome of
                     Inl exc \<Rightarrow> s\<lparr> execs := (execs s)[idx := (execs s ! idx)\<lparr> error := Some exc \<rparr>] \<rparr>
                   | Inr r \<Rightarrow> s\<lparr> results := dict_set name r (results s),
                                 execs := (execs s)[idx := (execs s ! idx)\<lparr> result := Some r \<rparr>] \<rparr>)
         in s1\<lparr> completed := insert name (completed s1),
                 pending := filter (\<lambda>(n, i). n \<noteq> name) (pending s1) \<rparr>))"

fun process_results :: "(ustr \<times> nat \<times> (exn + tool_result)) list \<Rightarrow> plan_state \<Rightarrow> plan_state" where
  "process_results [] s = s"
| "process_results (x # rest) s = process_results rest (process_result x s)"

text \<open>
  The loop \<open>while pending\<close> of \<open>execute_plan\<close>.  It returns the dictionary of results or
  the circular-dependency error, the final state, the outside state and the events.
  Every wave takes at least one name out of \<open>pending\<close>, which is the termination
  argument.
\<close>

function execute_loop ::
  "'w registry \<Rightarrow> int \<Rightarrow> plan_state \<Rightarrow> 'w
     \<Rightarrow> (exn + (ustr \<times> tool_result) list) \<times> plan_state \<times> 'w \<times> event list" where
  "execute_loop reg max_retries s w =
     (if pending s = [] then (Inr (results s), s, w, [])
      else if ready_of s = [] then (Inl (CircularDependency (map fst (pending s))), s, w, [])
      else
        (case run_wave reg max_retries (execs s) (ready_of s) w of
           (outs, w1, ev1) \<Rightarrow>
             (case execute_loop reg max_retries (process_results outs s) w1 of
                (res, s2, w2, ev2) \<Rightarrow> (res, s2, w2, Wave (map fst (ready_of s)) # ev1 @ ev2))))"
  by pat_completeness auto
termination
proof (relation "measure (\<lambda>(reg, max_retries, s, w). length (pending s))")
  show "wf (measure (\<lambda>(reg :: 'w registry, max_retries :: int, s, w :: 'w). length (pending s)))"
    by simp
next
  fix reg :: "'w registry" and max_retries :: int and s :: plan_state and w :: 'w
    and outs y w1 ev1
  assume ne: "ready_of s \<noteq> []"
    and x: "(outs, y) = run_wave reg max_retries (execs s) (ready_of s) w"
    and y: "(w1, ev1) = y"
  have names: "run_wave reg max_retries exs ready w' = (os, w2, ev)
      \<Longrightarrow> map (\<lambda>(n, i, out). (n, i)) os = ready"
    for exs ready os ev and w' w2 :: 'w
    by (induction ready arbitrary: w' os w2 ev) (auto split: prod.splits)
  have pend: "pending (process_results os t) = filter (\<lambda>(n, i). n \<notin> fst ` set os) (pending t)"
    for os t
  proof (induction os arbitrary: t)
    case Nil
    show ?case by simp
  next
    case (Cons a os)
    obtain n i out where a: "a = (n, i, out)" by (cases a)
    have e: "(\<lambda>x. (case x of (m, j) \<Rightarrow> m \<noteq> n) \<and> (case x of (m, j) \<Rightarrow> m \<notin> fst ` set os))
           = (\<lambda>(m, j). m \<notin> fst ` set (a # os))"
      by (auto simp: a fun_eq_iff)
    have "pending (process_result a t) = filter (\<lambda>(m, j). m \<noteq> n) (pending t)"
      unfolding a by (cases out) (simp_all add: process_result_def)
    then show ?case
      by (simp add: Cons e)
  qed
  obtain n i where ni: "(n, i) \<in> set (ready_of s)"
    using ne by (cases "ready_of s") auto
  then have p: "(n, i) \<in> set (pending s)"
    by (simp add: ready_of_def)
  from x y have "run_wave reg max_retries (execs s) (ready_of s) w = (outs, w1, ev1)"
    by simp
  then have "map (\<lambda>(n, i, out). (n, i)) outs = ready_of s"
    by (rule names)
  with ni have "(n, i) \<in> set (map (\<lambda>(n, i, out). (n, i)) outs)"
    by simp
  then obtain t where t: "t \<in> set outs" "(case t of (n, i, out) \<Rightarrow> (n, i)) = (n, i)"
    by auto
  from t(2) have "fst t = n"
    by (simp add: case_prod_beta)
  with t(1) have "n \<in> fst ` set outs"
    by auto
  with p have "length (filter (\<lambda>(n, i). n \<notin> fst ` set outs) (pending s)) < length (pending s)"
    by (intro length_filter_less [of "(n, i)"]) auto
  then show "((reg, max_retries, process_results outs s, w1), reg, max_retries, s, w)
      \<in> measure (\<lambda>(reg, max_retries, s, w). length (pending s))"
    by (simp add: pend)
qed

declare execute_loop.simps [simp del]

definition execute_plan ::
  "'w registry \<Rightarrow> int \<Rightarrow> tool_execution list \<Rightarrow> 'w
     \<Rightarrow> (exn + (ustr \<times> tool_result) list) \<times> tool_execution list \<times> 'w \<times> event list" where
  "execute_plan reg max_retries executions w =
     (if executions = [] then (Inr [], executions, w, [])
      else
        (case execute_loop reg max_retries
                \<lparr> results = [], completed = {}, pending = initial_pending executions,
                  execs = executions \<rparr> w of
           (res, s, w', evs) \<Rightarrow> (res, execs s, w', evs)))"

text \<open>
  A tool call of the completion model: an id, and under \<open>function\<close> a name and the
  arguments as a JSON string; each may be absent.  \<open>analyze_dependencies\<close> skips a call
  without a name, takes the arguments \<open>{}\<close> when they are absent or malformed, and
  raises \<open>AttributeError\<close> on \<open>args.get\<close> when the arguments of a
  \<open>load_documents_full\<close> call are not a dictionary.
\<close>

record tool_call =
  call_id :: "ustr option"
  call_name :: "ustr option"
  call_arguments :: "ustr option"

fun analyze_loop ::
  "builtins \<Rightarrow> tool_call list \<Rightarrow> tool_execution list \<Rightarrow> ustr list \<Rightarrow> exn + tool_execution list" where
  "analyze_loop py [] executions tool_names = Inr executions"
| "analyze_loop py (call # calls) executions tool_names =
     (case call_name call of
        None \<Rightarrow> analyze_loop py calls executions tool_names
      | Some name \<Rightarrow>
          if name = [] then analyze_loop py calls executions tool_names
          else
            let args = (case call_arguments call of
                          None \<Rightarrow> JObj []
                        | Some raw \<Rightarrow> (case b_loads py raw of None \<Rightarrow> JObj [] | Some v \<Rightarrow> v))
            in bind_exn
                 (if name = asc ''load_documents_full''
                  then bind_exn (py_get args (asc ''document_ids'') JNull) (\<lambda>ids.
                         Inr (if \<not> py_truthy ids \<and> asc ''search_user_documents'' \<in> set tool_names
                              then [asc ''search_user_documents''] else []))
                  else Inr [])
                 (\<lambda>deps. analyze_loop py calls
                    (executions @ [\<lparr> tool_name = name, arguments = args, depends_on = deps,
                                      result = None, error = None \<rparr>])
                    (tool_names @ [name])))"

definition analyze_dependencies :: "builtins \<Rightarrow> tool_call list \<Rightarrow> exn + tool_execution list" where
  "analyze_dependencies py tool_calls = analyze_loop py tool_calls [] []"

text \<open>\<open>str(exc)\<close> for the exceptions of the model.\<close>

fun exn_str :: "builtins \<Rightarrow> exn \<Rightarrow> ustr" where
  "exn_str py (Raised c m) = m"
| "exn_str py (CircularDependency names) =
     asc ''Circular dependency in tool execution. Remaining: '' @ b_repr py names"
| "exn_str py (FailedWithoutException name) = asc ''Tool '' @ name @ asc '' failed without exception''"
| "exn_str py (UnknownTool name) = asc ''Unknown tool: '' @ name"

text \<open>
  The parallel branch of \<open>RagAgent._run_tool_conversation\<close> for one batch of tool
  calls.  Every call gets one message of role \<open>tool\<close>; its content is kept as the JSON
  value that \<open>json.dumps\<close> serialises.  The list \<open>tool_debug\<close> is not modelled.  An
  exception of \<open>execute_plan\<close> is caught and switches the conversation to sequential
  execution; an exception of \<open>analyze_dependencies\<close> is raised before the \<open>try\<close>.
\<close>

record tool_message =
  msg_tool_call_id :: "ustr option"
  msg_name :: "ustr option"
  msg_content :: json

definition error_payload :: "ustr \<Rightarrow> json" where
  "error_payload message =
     JObj [(asc ''status'', JStr (asc ''error'')), (asc ''message'', JStr message)]"

definition parallel_tool_message ::
  "builtins \<Rightarrow> (ustr \<times> tool_result) list \<Rightarrow> tool_execution list \<Rightarrow> tool_call
     \<Rightarrow> tool_message \<times> search_result list" where
  "parallel_tool_message py res executions call =
     (case (case call_name call of None \<Rightarrow> None | Some name \<Rightarrow> map_of res name) of
        Some r \<Rightarrow>
          (\<lparr> msg_tool_call_id = call_id call, msg_name = call_name call, msg_content = content r \<rparr>,
           used_chunks r)
      | None \<Rightarrow>
          (let exec_info = find (\<lambda>e. Some (tool_name e) = call_name call) executions;
               error_msg = (case exec_info of
                              None \<Rightarrow> asc ''Unknown error''
                            | Some e \<Rightarrow> (case error e of
                                           None \<Rightarrow> asc ''Unknown error''
                                         | Some exc \<Rightarrow> exn_str py exc))
           in (\<lparr> msg_tool_call_id = call_id call, msg_name = call_name call,
                  msg_content = error_payload error_msg \<rparr>, [])))"

datatype parallel_outcome =
    ToolMessages "tool_message list" "search_result list"
  | SequentialFallback exn

definition run_parallel_tools ::
  "builtins \<Rightarrow> 'w registry \<Rightarrow> int \<Rightarrow> tool_call list \<Rightarrow> 'w
     \<Rightarrow> exn + parallel_outcome \<times> 'w \<times> event list" where
  "run_parallel_tools py reg max_retries tool_calls w =
     bind_exn (analyze_dependencies py tool_calls) (\<lambda>executions.
       (case execute_plan reg max_retries executions w of
          (Inl exc, executions', w', evs) \<Rightarrow> Inr (SequentialFallback exc, w', evs)
        | (Inr res, executions', w', evs) \<Rightarrow>
            Inr (ToolMessages
                   (map (\<lambda>call. fst (parallel_tool_message py res executions' call)) tool_calls)
                   (concat (map (\<lambda>call. snd (parallel_tool_message py res executions' call)) tool_calls)),
                 w', evs)))"

text \<open>The tools whose handler was called, one entry per call, in the order of the calls.\<close>

fun call_name_of :: "event \<Rightarrow> ustr list" where
  "call_name_of (Call name args attempt) = [name]"
| "call_name_of ev = []"

definition called :: "event list \<Rightarrow> ustr list" where
  "called evs = concat (map call_name_of evs)"

text \<open>The tool names of the waves, in the order of the waves.\<close>

fun wave_of :: "event \<Rightarrow> ustr list list" where
  "wave_of (Wave names) = [names]"
| "wave_of ev = []"

definition waves :: "event list \<Rightarrow> ustr list list" where
  "waves evs = concat (map wave_of evs)"






text \<open>
  Handlers for running the executor on concrete batches.  The outside state is the
  number of handler calls made so far: \<open>flaky_handler\<close> fails on the first two calls
  and succeeds afterwards, \<open>failing_handler\<close> always raises, \<open>ok_handler\<close> always
  succeeds.
\<close>

definition ok_result :: tool_result where
  "ok_result = \<lparr> content = JObj [(asc ''status'', JStr (asc ''ok''))], used_chunks = [] \<rparr>"

definition ok_handler :: "nat handler" where
  "ok_handler args w = (Inr ok_result, Suc w)"

definition failing_handler :: "nat handler" where
  "failing_handler args w = (Inl (Raised OtherException (asc ''boom'')), Suc w)"

definition flaky_handler :: "nat handler" where
  "flaky_handler args w = (if w < 2 then Inl (Raised OtherException (asc ''boom'')) else Inr ok_result, Suc w)"

definition demo_registry :: "nat registry" where
  "demo_registry name =
     (if name = asc ''flaky'' then Some flaky_handler
      else if name = asc ''broken'' then Some failing_handler
      else Some ok_handler)"

definition exec_of :: "string \<Rightarrow> string list \<Rightarrow> tool_execution" where
  "exec_of name deps =
     \<lparr> tool_name = asc name, arguments = JObj [], depends_on = map asc deps,
       result = None, error = None \<rparr>"



section \<open>Scenario decision: the completion model and the fallback\<close>

















section \<open>Properties\<close>

lemma dropWhile_all_iff: "(\<forall>x \<in> set (dropWhile P s). P x) \<longleftrightarrow> (\<forall>x \<in> set s. P x)"
  by (induction s) auto

lemma py_strip_empty_iff: "py_strip s = [] \<longleftrightarrow> (\<forall>c \<in> set s. is_space c)"
  by (simp add: py_strip_def dropWhile_eq_Nil_conv dropWhile_all_iff)

lemma py_contains_iff: "py_contains k q \<longleftrightarrow> sublist k q"
  by (induction q) (auto simp: sublist_Cons_right)

lemma is_space_lower_cp: "is_space (lower_cp c) = is_space c"
  by (auto simp: is_space_def lower_cp_def)

lemma lower_basic_blank: "(py_strip (lower_basic s) = []) = (py_strip s = [])"
  by (simp add: py_strip_empty_iff lower_basic_def is_space_lower_cp)

text \<open>
  C9.  The rule-based guess is a total function with four cases, tried in this order:
  a non-empty selection of documents gives 3 whatever the query; otherwise a
  lower-cased query containing one of the search keywords gives 1; otherwise an empty
  or whitespace-only query gives 5; otherwise 2.  Lower-casing is assumed to keep a
  string blank exactly when it was blank.
\<close>

theorem rule_guess_scenario_cases:
  assumes "\<And>s. (py_strip (lower s) = []) = (py_strip s = [])"
  shows "rule_guess_scenario lower query history selected_ids =
    (if selected_ids \<noteq> None \<and> selected_ids \<noteq> Some [] then 3
     else if \<exists>k \<in> set search_keywords.
                sublist k (lower (case query of None \<Rightarrow> [] | Some s \<Rightarrow> s)) then 1
     else if query = None \<or> query = Some [] \<or> (\<exists>s. query = Some s \<and> (\<forall>c \<in> set s. is_space c))
       then 5
     else 2)"
proof -
  have q: "(case query of None \<Rightarrow> [] | Some s \<Rightarrow> if s = [] then [] else s)
             = (case query of None \<Rightarrow> [] | Some s \<Rightarrow> s)"
    by (cases query) auto
  have b: "(py_strip (lower (case query of None \<Rightarrow> [] | Some s \<Rightarrow> s)) = [])
             = (query = None \<or> query = Some [] \<or> (\<exists>s. query = Some s \<and> (\<forall>c \<in> set s. is_space c)))"
    unfolding assms by (cases query) (auto simp: py_strip_empty_iff)
  have s: "(case selected_ids of None \<Rightarrow> False | Some ids \<Rightarrow> ids \<noteq> [] \<and> length ids > 0)
             = (selected_ids \<noteq> None \<and> selected_ids \<noteq> Some [])"
    by (cases selected_ids) auto
  show ?thesis
    unfolding rule_guess_scenario_def q s Let_def b
    by (simp add: list_ex_iff py_contains_iff)
qed

theorem rule_guess_scenario_cases_witness:
  "rule_guess_scenario lower_basic (Some [1053, 1072, 1081, 1076, 1080, 32, 1096, 1090, 1088, 1072, 1092])
      ([] :: unit list) None = 1
   \<and> rule_guess_scenario lower_basic (Some [1053, 1072, 1081, 1076, 1080]) ([] :: unit list) (Some [7]) = 3
   \<and> rule_guess_scenario lower_basic (Some [32, 9]) ([] :: unit list) (Some []) = 5
   \<and> rule_guess_scenario lower_basic (Some (asc ''Hello'')) ([] :: unit list) None = 2"
proof -
  note r = rule_guess_scenario_cases [of lower_basic, OF lower_basic_blank]
  have k: "\<exists>k \<in> set search_keywords.
      sublist k (lower_basic [1053, 1072, 1081, 1076, 1080, 32, 1096, 1090, 1088, 1072, 1092])"
  proof
    show "[1085, 1072, 1081, 1076, 1080] \<in> set search_keywords"
      by (simp add: search_keywords_def)
    have "prefix [1085, 1072, 1081, 1076, 1080]
        (lower_basic [1053, 1072, 1081, 1076, 1080, 32, 1096, 1090, 1088, 1072, 1092])"
      by (simp add: lower_basic_def lower_cp_def)
    then show "sublist [1085, 1072, 1081, 1076, 1080]
        (lower_basic [1053, 1072, 1081, 1076, 1080, 32, 1096, 1090, 1088, 1072, 1092])"
      by (rule prefix_imp_sublist)
  qed
  have n: "\<not> (\<exists>k \<in> set search_keywords. sublist k (lower_basic [32, 9]))"
    by (simp add: search_keywords_def lower_basic_def lower_cp_def sublist_Cons_right flip: py_contains_iff)
  have h: "\<not> (\<exists>k \<in> set search_keywords. sublist k (lower_basic (asc ''Hello'')))"
    by (simp add: search_keywords_def lower_basic_def lower_cp_def asc_def flip: py_contains_iff)
  show ?thesis
    using k n h by (simp add: r is_space_def asc_def)
qed





subsection \<open>Fusion plan\<close>










subsection \<open>Reciprocal rank fusion\<close>





























subsection \<open>Parallel tool executor\<close>

lemma retry_loop_shape:
  assumes "retry_loop reg mr name args [a ..< b] last_error w = (out, w', evs)"
    and "a < b" and "int b = mr + 1"
  shows "\<exists>n. a < n \<and> n \<le> b
          \<and> evs = concat (map (\<lambda>i. [Call name args i, Backoff name (2 ^ i)]) [a ..< n - 1])
                    @ [Call name args (n - 1)]
          \<and> (isl out \<longrightarrow> n = b)"
  using assms
proof (induction "b - a" arbitrary: a last_error w out w' evs)
  case 0
  then show ?case by simp
next
  case (Suc d)
  have u: "[a ..< b] = a # [Suc a ..< b]"
    using Suc.prems(2) by (simp add: upt_conv_Cons)
  obtain o1 w1 where e: "registry_execute reg name args w = (o1, w1)"
    by (cases "registry_execute reg name args w")
  show ?case
  proof (cases o1)
    case (Inr r)
    with Suc.prems(1) e have "evs = [Call name args a]" "out = Inr r"
      by (simp_all add: u)
    then show ?thesis
      using Suc.prems(2) by (intro exI [of _ "Suc a"]) simp
  next
    case (Inl exc)
    obtain o2 w2 ev2 where r: "retry_loop reg mr name args [Suc a ..< b] (Some exc) w1 = (o2, w2, ev2)"
      by (metis prod_cases3)
    show ?thesis
    proof (cases "int a < mr")
      case True
      then have lt: "Suc a < b" using Suc.prems(3) by simp
      from Suc.prems(1) e Inl r True
      have evs: "evs = Call name args a # Backoff name (2 ^ a) # ev2" and out: "out = o2"
        by (simp_all add: u)
      have "d = b - Suc a" using Suc.hyps(2) by simp
      from Suc.hyps(1) [OF this r lt Suc.prems(3)]
      obtain n where n: "Suc a < n" "n \<le> b"
        "ev2 = concat (map (\<lambda>i. [Call name args i, Backoff name (2 ^ i)]) [Suc a ..< n - 1])
                    @ [Call name args (n - 1)]"
        "isl o2 \<longrightarrow> n = b"
        by blast
      from n(1) have "[a ..< n - 1] = a # [Suc a ..< n - 1]"
        by (simp add: upt_conv_Cons)
      with n evs out show ?thesis
        by (intro exI [of _ n]) simp
    next
      case False
      then have b: "b = Suc a" using Suc.prems(2,3) by simp
      from Suc.prems(1) e Inl False
      have "evs = [Call name args a]" "out = Inl exc"
        by (simp_all add: u b)
      then show ?thesis
        by (intro exI [of _ b]) (simp add: b)
    qed
  qed
qed

text \<open>
  C6.  With \<open>max_retries \<ge> 0\<close>, one run of \<open>_execute_with_retry\<close> makes \<open>n\<close> attempts,
  numbered from 0, with \<open>1 \<le> n \<le> max_retries + 1\<close>: every attempt but the last one made
  is followed by a backoff of \<open>2 ^ attempt\<close> seconds, nothing precedes the first
  attempt, nothing follows the last, and a run that fails has made all
  \<open>max_retries + 1\<close> attempts.  With \<open>max_retries = 2\<close>, a handler that fails twice and
  then succeeds gives success after exactly the backoffs 1 and 2.
\<close>

theorem execute_with_retry_attempts:
  assumes "0 \<le> max_retries"
    and "execute_with_retry reg max_retries ex w = (out, w', evs)"
  shows "(\<exists>n. 1 \<le> n \<and> int n \<le> max_retries + 1
           \<and> evs = concat (map (\<lambda>i. [Call (tool_name ex) (arguments ex) i, Backoff (tool_name ex) (2 ^ i)])
                              [0 ..< n - 1])
                    @ [Call (tool_name ex) (arguments ex) (n - 1)]
           \<and> (isl out \<longrightarrow> int n = max_retries + 1))
       \<and> (\<forall>e1 w1 e2 w2 r w3.
            max_retries = 2
            \<and> registry_execute reg (tool_name ex) (arguments ex) w = (Inl e1, w1)
            \<and> registry_execute reg (tool_name ex) (arguments ex) w1 = (Inl e2, w2)
            \<and> registry_execute reg (tool_name ex) (arguments ex) w2 = (Inr r, w3)
            \<longrightarrow> out = Inr r
                \<and> evs = [Call (tool_name ex) (arguments ex) 0, Backoff (tool_name ex) 1,
                          Call (tool_name ex) (arguments ex) 1, Backoff (tool_name ex) 2,
                          Call (tool_name ex) (arguments ex) 2])"
proof (intro conjI allI impI)
  have "int (nat (max_retries + 1)) = max_retries + 1" "0 < nat (max_retries + 1)"
    using assms(1) by simp_all
  from retry_loop_shape [OF assms(2) [unfolded execute_with_retry_def] this(2,1)]
  obtain n where "0 < n" "n \<le> nat (max_retries + 1)"
    "evs = concat (map (\<lambda>i. [Call (tool_name ex) (arguments ex) i, Backoff (tool_name ex) (2 ^ i)])
                              [0 ..< n - 1])
                    @ [Call (tool_name ex) (arguments ex) (n - 1)]"
    "isl out \<longrightarrow> n = nat (max_retries + 1)"
    by blast
  then show "\<exists>n. 1 \<le> n \<and> int n \<le> max_retries + 1
           \<and> evs = concat (map (\<lambda>i. [Call (tool_name ex) (arguments ex) i, Backoff (tool_name ex) (2 ^ i)])
                              [0 ..< n - 1])
                    @ [Call (tool_name ex) (arguments ex) (n - 1)]
           \<and> (isl out \<longrightarrow> int n = max_retries + 1)"
    using assms(1) by (intro exI [of _ n]) auto
next
  fix e1 w1 e2 w2 r w3
  assume a: "max_retries = 2
            \<and> registry_execute reg (tool_name ex) (arguments ex) w = (Inl e1, w1)
            \<and> registry_execute reg (tool_name ex) (arguments ex) w1 = (Inl e2, w2)
            \<and> registry_execute reg (tool_name ex) (arguments ex) w2 = (Inr r, w3)"
  have u: "[0 ..< 3] = [0, 1, 2::nat]"
    by code_simp
  from assms(2) a
  have "(out, w', evs) = (Inr r, w3, [Call (tool_name ex) (arguments ex) 0, Backoff (tool_name ex) 1,
                          Call (tool_name ex) (arguments ex) 1, Backoff (tool_name ex) 2,
                          Call (tool_name ex) (arguments ex) 2])"
    by (simp add: execute_with_retry_def u)
  then show "out = Inr r"
    and "evs = [Call (tool_name ex) (arguments ex) 0, Backoff (tool_name ex) 1,
                          Call (tool_name ex) (arguments ex) 1, Backoff (tool_name ex) 2,
                          Call (tool_name ex) (arguments ex) 2]"
    by simp_all
qed

theorem execute_with_retry_attempts_witness:
  "execute_with_retry demo_registry 2 (exec_of ''flaky'' []) 0
     = (Inr ok_result, 3,
        [Call (asc ''flaky'') (JObj []) 0, Backoff (asc ''flaky'') 1,
         Call (asc ''flaky'') (JObj []) 1, Backoff (asc ''flaky'') 2,
         Call (asc ''flaky'') (JObj []) 2])"
proof -
  obtain out w' evs where r: "execute_with_retry demo_registry 2 (exec_of ''flaky'' []) 0 = (out, w', evs)"
    by (metis prod_cases3)
  have e: "registry_execute demo_registry (tool_name (exec_of ''flaky'' [])) (arguments (exec_of ''flaky'' [])) 0
             = (Inl (Raised OtherException (asc ''boom'')), 1)"
    "registry_execute demo_registry (tool_name (exec_of ''flaky'' [])) (arguments (exec_of ''flaky'' [])) 1
             = (Inl (Raised OtherException (asc ''boom'')), 2)"
    "registry_execute demo_registry (tool_name (exec_of ''flaky'' [])) (arguments (exec_of ''flaky'' [])) 2
             = (Inr ok_result, 3)"
    by (simp_all add: registry_execute_def demo_registry_def exec_of_def flaky_handler_def)
  have u: "[0 ..< 3] = [0, 1, 2::nat]"
    by code_simp
  have w: "w' = 3"
    using r e by (simp add: execute_with_retry_def u)
  have z: "(0::int) \<le> 2" by simp
  from execute_with_retry_attempts [OF z r] e
  have "out = Inr ok_result
      \<and> evs = [Call (tool_name (exec_of ''flaky'' [])) (arguments (exec_of ''flaky'' [])) 0,
               Backoff (tool_name (exec_of ''flaky'' [])) 1,
               Call (tool_name (exec_of ''flaky'' [])) (arguments (exec_of ''flaky'' [])) 1,
               Backoff (tool_name (exec_of ''flaky'' [])) 2,
               Call (tool_name (exec_of ''flaky'' [])) (arguments (exec_of ''flaky'' [])) 2]"
    by blast
  with r w show ?thesis
    by (simp add: exec_of_def)
qed

lemma called_append [simp]: "called (xs @ ys) = called xs @ called ys"
  by (simp add: called_def)

lemma called_Cons [simp]:
  "called (Call n a k # evs) = n # called evs"
  "called (Backoff n b # evs) = called evs"
  "called (Wave ns # evs) = called evs"
  "called [] = []"
  by (simp_all add: called_def)

lemma waves_append [simp]: "waves (xs @ ys) = waves xs @ waves ys"
  by (simp add: waves_def)

lemma waves_Cons [simp]:
  "waves (Call n a k # evs) = waves evs"
  "waves (Backoff n b # evs) = waves evs"
  "waves (Wave ns # evs) = ns # waves evs"
  "waves [] = []"
  by (simp_all add: waves_def)






































lemma execute_plan_empty:
  assumes "execute_plan reg mr [] w = (res, exs', w', evs)"
  shows "res = Inr []" "exs' = []" "w' = w" "evs = []"
  using assms by (auto simp: execute_plan_def)



































subsection \<open>Scenario decision\<close>













end
